theory Spec2Isabelle
  imports Main "HOL-Library.AList"
begin

section \<open>ProcessSessionManager: data model\<close>

text \<open>
  The embedding follows \<^verbatim>\<open>src/server/ProcessSessionManager.ts\<close>. A session
  (\<^verbatim>\<open>ManagedProcess\<close>) is a mutable object shared between the registry
  (\<^verbatim>\<open>this.sessions\<close>) and the closures installed on its child process, so session
  objects live in an explicit store addressed by references, and the registry maps an
  id to a reference. The registry is a JavaScript \<^verbatim>\<open>Map\<close>: an association list in
  insertion order, where \<^verbatim>\<open>set\<close> on an existing key replaces the value in place and
  on a new key appends (\<^const>\<open>AList.update\<close>), and \<^verbatim>\<open>delete\<close> removes the key
  (\<^const>\<open>AList.delete\<close>).

  What the operating system and the Node runtime decide (the random id, the clock, the
  result of looking for the executable, whether a write or a signal raises) is passed
  to each operation as an argument. Emitting a notification appends it to the log
  \<open>events\<close>; listeners are outside the model and are taken not to raise (for the
  \<^verbatim>\<open>error\<close> notification this includes that one is subscribed).
\<close>

type_synonym session_id = string
type_synonym ref = nat

datatype status = Idle | Working | Waiting | Offline

text \<open>
  The part of Node's \<^verbatim>\<open>ChildProcess\<close> that the manager reads or writes.
  \<open>stdin\<close> is \<open>None\<close> when the stream is null, otherwise the chunks written so far;
  \<open>capturedId\<close> is the constant \<^verbatim>\<open>id\<close> of the \<^verbatim>\<open>createSession\<close> call that
  installed the stdout, exit and error handlers on this process (the handlers close over
  that constant and over the session object that owns the process).
\<close>

record child_process =
  pid :: nat
  spawnArgs :: "string list"
  stdin :: "string list option"
  killed :: bool
  exitCode :: "int option"
  capturedId :: session_id

record managed_process =
  id_field :: session_id
  name :: string
  process :: child_process
  status :: status
  cwd :: string
  createdAt :: nat
  lastActivity :: nat
  outputBuffer :: "string list"
  claudeSessionId :: "string option"
  currentTool :: "string option"

datatype event =
    Output session_id string
  | Exit session_id "int option"
  | Error session_id string
  | StatusChange session_id status

record manager =
  sessions :: "(session_id \<times> ref) list"
  sessionCounter :: nat
  heap :: "ref \<Rightarrow> managed_process option"
  nextRef :: ref
  events :: "event list"

datatype error = ClaudeNotFound | SpawnFailed

record flags =
  continue :: "bool option"
  skipPermissions :: "bool option"
  chrome :: "bool option"

record create_options =
  opt_name :: "string option"
  opt_cwd :: "string option"
  opt_flags :: "flags option"

text \<open>
  Outcome of \<^verbatim>\<open>stdin.write\<close>: the chunk is accepted; or the call returns without
  raising although the stream is closed or destroyed (as it is once the process has
  exited), the chunk is dropped and the failure is reported later through the stream's
  own error event; or the call raises. The manager does not look at what \<^verbatim>\<open>write\<close>
  returns.
\<close>
datatype write_outcome = WriteOk | WriteFails | WriteThrows

text \<open>
  Outcome of \<^verbatim>\<open>process.kill(signal)\<close>: the signal was delivered (Node then sets
  \<^verbatim>\<open>killed\<close>), it was not delivered (the call returns false, as for a process that
  is already dead), or the call raises (Node does so only for a signal that the
  platform does not support, which neither \<^verbatim>\<open>SIGTERM\<close> nor \<^verbatim>\<open>SIGINT\<close> is).
\<close>
datatype signal_outcome = SignalDelivered | SignalNotDelivered | SignalThrows

text \<open>Outcome of \<^verbatim>\<open>execSync\<close> of the \<^verbatim>\<open>taskkill\<close> command.\<close>
datatype exec_outcome = ExecOk | ExecThrows

text \<open>
  What \<^verbatim>\<open>createSession\<close> obtains from outside: \<^verbatim>\<open>randomUUID()\<close>, the result of
  \<^verbatim>\<open>findClaudePath()\<close>, the result of \<^verbatim>\<open>spawn\<close> (\<open>None\<close> when it raises, otherwise
  the pid and whether the stdin pipe exists), the two readings of \<^verbatim>\<open>Date.now()\<close> and
  \<^verbatim>\<open>process.cwd()\<close>.
\<close>
record create_env =
  uuid :: session_id
  claudePath :: "string option"
  spawned :: "(nat \<times> bool) option"
  nowCreated :: nat
  nowActivity :: nat
  processCwd :: string

definition MAX_OUTPUT_BUFFER_LINES :: nat where
  "MAX_OUTPUT_BUFFER_LINES = 500"

definition init_manager :: manager where
  "init_manager = \<lparr>sessions = [], sessionCounter = 0, heap = (\<lambda>_. None), nextRef = 0, events = []\<rparr>"

section \<open>String and array helpers of the runtime\<close>

definition newline :: char where
  "newline = CHR 0x0A"

text \<open>\<^verbatim>\<open>text.split('\n')\<close>: always at least one piece.\<close>
fun split_nl :: "string \<Rightarrow> string list" where
  "split_nl [] = [[]]"
| "split_nl (c # cs) =
     (if c = newline then [] # split_nl cs
      else (c # hd (split_nl cs)) # tl (split_nl cs))"

text \<open>\<^verbatim>\<open>lines.join('\n')\<close>.\<close>
fun join_nl :: "string list \<Rightarrow> string" where
  "join_nl [] = []"
| "join_nl [l] = l"
| "join_nl (l # ls) = l @ newline # join_nl ls"

text \<open>\<^verbatim>\<open>arr.slice(start)\<close> for an integer \<open>start\<close>: a negative start counts from the end.\<close>
definition slice_from :: "int \<Rightarrow> 'a list \<Rightarrow> 'a list" where
  "slice_from start xs =
     (let n = int (length xs);
          k = (if start < 0 then max (n + start) 0 else min start n)
      in drop (nat k) xs)"

text \<open>Decimal rendering of the session counter in the default name.\<close>
function show_nat :: "nat \<Rightarrow> string" where
  "show_nat n =
     (if n < 10 then [''0123456789'' ! n]
      else show_nat (n div 10) @ [''0123456789'' ! (n mod 10)])"
  by pat_completeness auto
termination
  by (relation "measure (\<lambda>n. n)") auto

declare show_nat.simps [simp del]

section \<open>Operations\<close>

definition emit :: "event \<Rightarrow> manager \<Rightarrow> manager" where
  "emit e m = m\<lparr>events := events m @ [e]\<rparr>"

text \<open>
  Mutation of the session object at a reference. A reference held by the registry or by
  a handler never dangles, so the \<open>None\<close> branch of a store lookup, here and below, is
  not reachable from \<open>init_manager\<close>; it leaves the state as it is.
\<close>
definition modify :: "ref \<Rightarrow> (managed_process \<Rightarrow> managed_process) \<Rightarrow> manager \<Rightarrow> manager" where
  "modify r f m =
     (case heap m r of
        None \<Rightarrow> m
      | Some s \<Rightarrow> m\<lparr>heap := (heap m)(r \<mapsto> f s)\<rparr>)"

definition getSessions :: "manager \<Rightarrow> ref list" where
  "getSessions m = map snd (sessions m)"

definition getSession :: "manager \<Rightarrow> session_id \<Rightarrow> ref option" where
  "getSession m i = map_of (sessions m) i"

text \<open>The record a caller reads through the reference returned by \<open>getSession\<close>.\<close>
definition lookup :: "manager \<Rightarrow> session_id \<Rightarrow> managed_process option" where
  "lookup m i = (case getSession m i of None \<Rightarrow> None | Some r \<Rightarrow> heap m r)"

definition build_args :: "flags \<Rightarrow> string list" where
  "build_args f =
     (if continue f \<noteq> Some False then [''-c''] else [])
     @ (if skipPermissions f \<noteq> Some False
        then [''--permission-mode=bypassPermissions'', ''--dangerously-skip-permissions'']
        else [])
     @ (if chrome f = Some True then [''--chrome''] else [])"

definition default_flags :: flags where
  "default_flags = \<lparr>continue = None, skipPermissions = None, chrome = None\<rparr>"

text \<open>\<^verbatim>\<open>a || b\<close> on an optional string: absent and the empty string are falsy.\<close>
definition or_else :: "string option \<Rightarrow> string \<Rightarrow> string" where
  "or_else a b = (case a of None \<Rightarrow> b | Some s \<Rightarrow> if s = [] then b else s)"

definition truthy :: "string option \<Rightarrow> bool" where
  "truthy a = (case a of None \<Rightarrow> False | Some s \<Rightarrow> s \<noteq> [])"

definition createSession ::
  "create_env \<Rightarrow> create_options \<Rightarrow> manager \<Rightarrow> (error + ref) \<times> manager" where
  "createSession env options m =
     (let m1 = m\<lparr>sessionCounter := sessionCounter m + 1\<rparr>;
          i = uuid env;
          nm = or_else (opt_name options) (''Claude '' @ show_nat (sessionCounter m1));
          dir = or_else (opt_cwd options) (processCwd env);
          args = build_args (case opt_flags options of None \<Rightarrow> default_flags | Some f \<Rightarrow> f)
      in if \<not> truthy (claudePath env) then (Inl ClaudeNotFound, m1)
         else case spawned env of
           None \<Rightarrow> (Inl SpawnFailed, m1)
         | Some (p, has_stdin) \<Rightarrow>
             let proc = \<lparr>pid = p, spawnArgs = args,
                         stdin = (if has_stdin then Some [] else None),
                         killed = False, exitCode = None, capturedId = i\<rparr>;
                 session = \<lparr>id_field = i, name = nm, process = proc, status = Idle,
                            cwd = dir, createdAt = nowCreated env,
                            lastActivity = nowActivity env, outputBuffer = [],
                            claudeSessionId = None, currentTool = None\<rparr>;
                 r = nextRef m1
             in (Inr r,
                 m1\<lparr>heap := (heap m1)(r \<mapsto> session),
                    nextRef := r + 1,
                    sessions := AList.update i r (sessions m1)\<rparr>))"

definition appendOutput :: "managed_process \<Rightarrow> string \<Rightarrow> managed_process" where
  "appendOutput session text =
     (let buf = outputBuffer session @ split_nl text
      in session\<lparr>outputBuffer :=
           (if length buf > MAX_OUTPUT_BUFFER_LINES
            then slice_from (- int MAX_OUTPUT_BUFFER_LINES) buf
            else buf)\<rparr>)"

subsection \<open>Handlers installed on the child process\<close>

text \<open>
  Each handler runs with the session object \<open>r\<close> that owns the process and with the id
  captured when the handlers were installed.
\<close>

definition on_stdout :: "ref \<Rightarrow> nat \<Rightarrow> string \<Rightarrow> manager \<Rightarrow> manager" where
  "on_stdout r now text m =
     (case heap m r of
        None \<Rightarrow> m
      | Some s \<Rightarrow>
          emit (Output (capturedId (process s)) text)
            (modify r (\<lambda>s. (appendOutput s text)\<lparr>lastActivity := now\<rparr>) m))"

definition on_stderr :: "ref \<Rightarrow> nat \<Rightarrow> string \<Rightarrow> manager \<Rightarrow> manager" where
  "on_stderr r now text m =
     modify r (\<lambda>s. (appendOutput s (''[stderr] '' @ text))\<lparr>lastActivity := now\<rparr>) m"

definition on_exit :: "ref \<Rightarrow> int option \<Rightarrow> manager \<Rightarrow> manager" where
  "on_exit r code m =
     (case heap m r of
        None \<Rightarrow> m
      | Some s \<Rightarrow>
          emit (StatusChange (capturedId (process s)) Offline)
            (emit (Exit (capturedId (process s)) code)
              (modify r (\<lambda>s. s\<lparr>status := Offline\<rparr>) m)))"

definition on_error :: "ref \<Rightarrow> string \<Rightarrow> manager \<Rightarrow> manager" where
  "on_error r err m =
     (case heap m r of
        None \<Rightarrow> m
      | Some s \<Rightarrow>
          emit (StatusChange (capturedId (process s)) Offline)
            (emit (Error (capturedId (process s)) err)
              (modify r (\<lambda>s. s\<lparr>status := Offline\<rparr>) m)))"

subsection \<open>Interaction\<close>

definition sendInput ::
  "write_outcome \<Rightarrow> nat \<Rightarrow> session_id \<Rightarrow> string \<Rightarrow> manager \<Rightarrow> bool \<times> manager" where
  "sendInput wr now i input m =
     (case getSession m i of
        None \<Rightarrow> (False, m)
      | Some r \<Rightarrow>
          (case heap m r of
             None \<Rightarrow> (False, m)
           | Some s \<Rightarrow>
               (case stdin (process s) of
                  None \<Rightarrow> (False, m)
                | Some written \<Rightarrow>
                    (case wr of
                       WriteThrows \<Rightarrow> (False, m)
                     | WriteFails \<Rightarrow> (True, modify r (\<lambda>s. s\<lparr>lastActivity := now\<rparr>) m)
                     | WriteOk \<Rightarrow>
                         (True,
                          modify r (\<lambda>s. s\<lparr>process := (process s)\<lparr>stdin := Some (written @ [input @ [newline]])\<rparr>,
                                           lastActivity := now\<rparr>) m)))))"

definition interrupt ::
  "bool \<Rightarrow> write_outcome \<Rightarrow> signal_outcome \<Rightarrow> nat \<Rightarrow> session_id \<Rightarrow> manager \<Rightarrow> bool \<times> manager" where
  "interrupt IS_WINDOWS wr sg now i m =
     (case getSession m i of
        None \<Rightarrow> (False, m)
      | Some r \<Rightarrow>
          (case heap m r of
             None \<Rightarrow> (False, m)
           | Some s \<Rightarrow>
               if IS_WINDOWS then
                 (case stdin (process s) of
                    None \<Rightarrow> (True, modify r (\<lambda>s. s\<lparr>lastActivity := now\<rparr>) m)
                  | Some written \<Rightarrow>
                      (case wr of
                         WriteThrows \<Rightarrow> (False, m)
                       | WriteFails \<Rightarrow> (True, modify r (\<lambda>s. s\<lparr>lastActivity := now\<rparr>) m)
                       | WriteOk \<Rightarrow>
                           (True,
                            modify r (\<lambda>s. s\<lparr>process := (process s)\<lparr>stdin := Some (written @ [[CHR 0x03]])\<rparr>,
                                             lastActivity := now\<rparr>) m)))
               else
                 (case sg of
                    SignalThrows \<Rightarrow> (False, m)
                  | SignalDelivered \<Rightarrow>
                      (True, modify r (\<lambda>s. s\<lparr>process := (process s)\<lparr>killed := True\<rparr>\<rparr>) m)
                  | SignalNotDelivered \<Rightarrow> (True, m))))"

text \<open>
  \<^verbatim>\<open>kill\<close>: on Windows the \<^verbatim>\<open>taskkill\<close> call sits in its own \<^verbatim>\<open>try\<close> with an empty
  \<^verbatim>\<open>catch\<close>; elsewhere \<^verbatim>\<open>process.kill('SIGTERM')\<close> is covered only by the outer
  \<^verbatim>\<open>try\<close>, whose \<^verbatim>\<open>catch\<close> returns false before the registry is touched.
\<close>
definition kill ::
  "bool \<Rightarrow> exec_outcome \<Rightarrow> signal_outcome \<Rightarrow> session_id \<Rightarrow> manager \<Rightarrow> bool \<times> manager" where
  "kill IS_WINDOWS ex sg i m =
     (case getSession m i of
        None \<Rightarrow> (False, m)
      | Some r \<Rightarrow>
          if IS_WINDOWS then
            (case ex of
               ExecOk \<Rightarrow> (True, m\<lparr>sessions := AList.delete i (sessions m)\<rparr>)
             | ExecThrows \<Rightarrow> (True, m\<lparr>sessions := AList.delete i (sessions m)\<rparr>))
          else
            (case sg of
               SignalThrows \<Rightarrow> (False, m)
             | SignalDelivered \<Rightarrow>
                 (let m1 = modify r (\<lambda>s. s\<lparr>process := (process s)\<lparr>killed := True\<rparr>\<rparr>) m
                  in (True, m1\<lparr>sessions := AList.delete i (sessions m1)\<rparr>))
             | SignalNotDelivered \<Rightarrow> (True, m\<lparr>sessions := AList.delete i (sessions m)\<rparr>)))"

text \<open>
  \<^verbatim>\<open>getOutput(id, lines?)\<close>: \<open>lines\<close> is an optional integer; absent and \<open>0\<close> are
  falsy, so both select the whole buffer.
\<close>
definition getOutput :: "manager \<Rightarrow> session_id \<Rightarrow> int option \<Rightarrow> string" where
  "getOutput m i lines =
     (case lookup m i of
        None \<Rightarrow> []
      | Some s \<Rightarrow>
          join_nl (case lines of
                     None \<Rightarrow> outputBuffer s
                   | Some n \<Rightarrow> if n \<noteq> 0 then slice_from (- n) (outputBuffer s) else outputBuffer s))"

subsection \<open>Status\<close>

definition isAlive :: "child_process \<Rightarrow> bool" where
  "isAlive p = (\<not> killed p \<and> exitCode p = None)"

definition check_session :: "manager \<Rightarrow> ref \<Rightarrow> manager" where
  "check_session m r =
     (case heap m r of
        None \<Rightarrow> m
      | Some s \<Rightarrow>
          if \<not> isAlive (process s) \<and> status s \<noteq> Offline then
            emit (StatusChange (id_field s) Offline) (modify r (\<lambda>s. s\<lparr>status := Offline\<rparr>) m)
          else if isAlive (process s) \<and> status s = Offline then
            emit (StatusChange (id_field s) Idle) (modify r (\<lambda>s. s\<lparr>status := Idle\<rparr>) m)
          else m)"

definition checkHealth :: "manager \<Rightarrow> manager" where
  "checkHealth m = foldl check_session m (getSessions m)"

definition updateStatus :: "session_id \<Rightarrow> status \<Rightarrow> manager \<Rightarrow> manager" where
  "updateStatus i st m =
     (case getSession m i of
        None \<Rightarrow> m
      | Some r \<Rightarrow>
          (case heap m r of
             None \<Rightarrow> m
           | Some s \<Rightarrow>
               if status s \<noteq> st
               then emit (StatusChange i st) (modify r (\<lambda>s. s\<lparr>status := st\<rparr>) m)
               else m))"

definition linkClaudeSession :: "session_id \<Rightarrow> string \<Rightarrow> manager \<Rightarrow> manager" where
  "linkClaudeSession managedId c m =
     (case getSession m managedId of
        None \<Rightarrow> m
      | Some r \<Rightarrow> modify r (\<lambda>s. s\<lparr>claudeSessionId := Some c\<rparr>) m)"

definition findByClaudeSession :: "manager \<Rightarrow> string \<Rightarrow> ref option" where
  "findByClaudeSession m c =
     find (\<lambda>r. case heap m r of None \<Rightarrow> False | Some s \<Rightarrow> claudeSessionId s = Some c)
          (getSessions m)"

subsection \<open>Restart and cleanup\<close>

text \<open>
  \<^verbatim>\<open>restart\<close> ignores the result of \<^verbatim>\<open>kill\<close>, lets an error of \<^verbatim>\<open>createSession\<close>
  propagate, and then moves the new object from its minted id to the original one.
  \<^verbatim>\<open>name\<close> and \<^verbatim>\<open>cwd\<close> of the existing object are never assigned after creation, so
  they are read from the object as it was found.
\<close>
definition restart ::
  "bool \<Rightarrow> exec_outcome \<Rightarrow> signal_outcome \<Rightarrow> create_env \<Rightarrow> session_id \<Rightarrow> manager
   \<Rightarrow> (error + ref option) \<times> manager" where
  "restart IS_WINDOWS ex sg env i m =
     (case lookup m i of
        None \<Rightarrow> (Inr None, m)
      | Some existing \<Rightarrow>
          (let m1 = snd (kill IS_WINDOWS ex sg i m);
               created = createSession env
                           \<lparr>opt_name = Some (name existing), opt_cwd = Some (cwd existing),
                            opt_flags = None\<rparr> m1;
               m2 = snd created
           in case fst created of
                Inl e \<Rightarrow> (Inl e, m2)
              | Inr r \<Rightarrow>
                  (case heap m2 r of
                     None \<Rightarrow> (Inr (Some r), m2)
                   | Some session \<Rightarrow>
                       (let m3 = m2\<lparr>sessions := AList.delete (id_field session) (sessions m2)\<rparr>;
                            m4 = modify r (\<lambda>s. s\<lparr>id_field := i\<rparr>) m3
                        in (Inr (Some r), m4\<lparr>sessions := AList.update i r (sessions m4)\<rparr>)))))"

text \<open>\<^verbatim>\<open>cleanup\<close>: one \<^verbatim>\<open>kill\<close> per key, each with its own outcome.\<close>
definition cleanup ::
  "bool \<Rightarrow> (session_id \<Rightarrow> exec_outcome) \<Rightarrow> (session_id \<Rightarrow> signal_outcome) \<Rightarrow> manager \<Rightarrow> manager" where
  "cleanup IS_WINDOWS ex sg m =
     foldl (\<lambda>m i. snd (kill IS_WINDOWS (ex i) (sg i) i m)) m (map fst (sessions m))"

section \<open>Well-formed states\<close>

text \<open>
  The states the operations produce from \<open>init_manager\<close>: keys and references of the
  registry are distinct, every registered reference is allocated, the object registered
  under a key carries that key in its \<^verbatim>\<open>id\<close> field, and its buffer is within the cap.
\<close>
definition well_formed :: "manager \<Rightarrow> bool" where
  "well_formed m =
     (distinct (map fst (sessions m)) \<and> distinct (map snd (sessions m)) \<and>
      (\<forall>(k, r) \<in> set (sessions m).
         r < nextRef m \<and>
         (case heap m r of
            None \<Rightarrow> False
          | Some s \<Rightarrow> id_field s = k \<and> length (outputBuffer s) \<le> MAX_OUTPUT_BUFFER_LINES)))"

text \<open>
  Node records the exit code on the process object before it emits \<^verbatim>\<open>exit\<close>.
\<close>
definition process_exited :: "ref \<Rightarrow> int option \<Rightarrow> manager \<Rightarrow> manager" where
  "process_exited r code m =
     on_exit r code (modify r (\<lambda>s. s\<lparr>process := (process s)\<lparr>exitCode := code\<rparr>\<rparr>) m)"

text \<open>
  The states of a manager during its life: any sequence of calls and of process events,
  with any outcome of the external calls.
\<close>
inductive reachable :: "manager \<Rightarrow> bool" where
  r_init: "reachable init_manager"
| r_create: "reachable m \<Longrightarrow> reachable (snd (createSession env options m))"
| r_send: "reachable m \<Longrightarrow> reachable (snd (sendInput wr now i input m))"
| r_interrupt: "reachable m \<Longrightarrow> reachable (snd (interrupt w wr sg now i m))"
| r_kill: "reachable m \<Longrightarrow> reachable (snd (kill w ex sg i m))"
| r_check: "reachable m \<Longrightarrow> reachable (checkHealth m)"
| r_update: "reachable m \<Longrightarrow> reachable (updateStatus i st m)"
| r_link: "reachable m \<Longrightarrow> reachable (linkClaudeSession i c m)"
| r_restart: "reachable m \<Longrightarrow> reachable (snd (restart w ex sg env i m))"
| r_cleanup: "reachable m \<Longrightarrow> reachable (cleanup w exs sgs m)"
| r_stdout: "reachable m \<Longrightarrow> reachable (on_stdout r now text m)"
| r_stderr: "reachable m \<Longrightarrow> reachable (on_stderr r now text m)"
| r_exit: "reachable m \<Longrightarrow> reachable (process_exited r code m)"
| r_error: "reachable m \<Longrightarrow> reachable (on_error r err m)"

text \<open>The most recent \<open>MAX_OUTPUT_BUFFER_LINES\<close> entries of a sequence, in order.\<close>
definition recent_lines :: "'a list \<Rightarrow> 'a list" where
  "recent_lines xs = drop (length xs - MAX_OUTPUT_BUFFER_LINES) xs"

text \<open>
  Reconciliation as the specification words it: a session whose process is not alive and
  whose status is not \<open>Offline\<close> goes to \<open>Offline\<close>, one whose process is alive and whose
  status is \<open>Offline\<close> goes to \<open>Idle\<close>, every other status stays; \<open>health_notice\<close> is the
  single notification of a session whose status changes, and nothing otherwise.
\<close>
definition reconciled :: "managed_process \<Rightarrow> status" where
  "reconciled s =
     (if \<not> isAlive (process s) \<and> status s \<noteq> Offline then Offline
      else if isAlive (process s) \<and> status s = Offline then Idle
      else status s)"

definition health_notice :: "session_id \<Rightarrow> managed_process \<Rightarrow> event list" where
  "health_notice k s =
     (if reconciled s = status s then [] else [StatusChange k (reconciled s)])"

section \<open>Example states\<close>

text \<open>
  States reached from \<open>init_manager\<close> by the operations themselves; the closed instances
  of the theorems below are evaluated on them.
\<close>

definition env_a :: create_env where
  "env_a = \<lparr>uuid = ''a'', claudePath = Some ''claude'', spawned = Some (100, True),
            nowCreated = 1, nowActivity = 1, processCwd = ''/work''\<rparr>"

definition no_options :: create_options where
  "no_options = \<lparr>opt_name = None, opt_cwd = None, opt_flags = None\<rparr>"

definition session_a :: managed_process where
  "session_a =
     \<lparr>id_field = ''a'', name = ''Claude 1'',
      process = \<lparr>pid = 100,
                 spawnArgs = [''-c'', ''--permission-mode=bypassPermissions'',
                              ''--dangerously-skip-permissions''],
                 stdin = Some [], killed = False, exitCode = None, capturedId = ''a''\<rparr>,
      status = Idle, cwd = ''/work'', createdAt = 1, lastActivity = 1,
      outputBuffer = [], claudeSessionId = None, currentTool = None\<rparr>"

definition one_session :: manager where
  "one_session = snd (createSession env_a no_options init_manager)"

definition two_lines :: manager where
  "two_lines = on_stdout 0 2 ''x\<newline>y'' one_session"

definition env_b :: create_env where
  "env_b = \<lparr>uuid = ''b'', claudePath = Some ''claude'', spawned = Some (200, True),
            nowCreated = 3, nowActivity = 3, processCwd = ''/work''\<rparr>"

definition env_c :: create_env where
  "env_c = \<lparr>uuid = ''c'', claudePath = Some ''claude'', spawned = Some (300, True),
            nowCreated = 4, nowActivity = 4, processCwd = ''/work''\<rparr>"

definition named :: "string \<Rightarrow> create_options" where
  "named n = \<lparr>opt_name = Some n, opt_cwd = None, opt_flags = None\<rparr>"

definition session_b :: managed_process where
  "session_b = session_a\<lparr>id_field := ''b'', name := ''B'',
                 process := (process session_a)\<lparr>pid := 200, capturedId := ''b''\<rparr>,
                 createdAt := 3, lastActivity := 3\<rparr>"

definition session_c :: managed_process where
  "session_c = session_a\<lparr>id_field := ''c'', name := ''C'',
                 process := (process session_a)\<lparr>pid := 300, capturedId := ''c''\<rparr>,
                 createdAt := 4, lastActivity := 4\<rparr>"

definition restarted :: manager where
  "restarted = snd (restart True ExecOk SignalDelivered env_b ''a'' one_session)"

definition session_a2 :: managed_process where
  "session_a2 = session_a\<lparr>process := (process session_a)\<lparr>pid := 200, capturedId := ''b''\<rparr>,
                 createdAt := 3, lastActivity := 3\<rparr>"

definition three_sessions :: manager where
  "three_sessions =
     updateStatus ''b'' Offline
       (snd (interrupt False WriteOk SignalDelivered 5 ''a''
          (snd (createSession env_c (named ''C'')
             (snd (createSession env_b (named ''B'') one_session))))))"

definition errored :: manager where
  "errored = on_error 0 ''spawn EACCES'' one_session"

text \<open>The process of session \<open>''a''\<close> has exited with code 3.\<close>
definition exited_with_code :: manager where
  "exited_with_code = process_exited 0 (Some 3) one_session"

text \<open>
  The process of session \<open>''a''\<close> was terminated from outside by a signal: the exit
  event carries no code.
\<close>
definition exited_by_signal :: manager where
  "exited_by_signal = process_exited 0 None one_session"

section \<open>Evaluation of the example states\<close>

lemma show_nat_one: "show_nat (Suc 0) = ''1''"
  by (subst show_nat.simps) simp

lemma one_session_eq:
  "one_session =
     \<lparr>sessions = [(''a'', 0)], sessionCounter = 1, heap = (\<lambda>_. None)(0 \<mapsto> session_a),
      nextRef = 1, events = []\<rparr>"
  by (simp add: one_session_def createSession_def env_a_def no_options_def init_manager_def
        truthy_def or_else_def Let_def build_args_def default_flags_def show_nat_one
        session_a_def)

lemma one_session_lookup: "lookup one_session ''a'' = Some session_a"
  by (simp add: one_session_eq lookup_def getSession_def)

lemma two_lines_lookup:
  "lookup two_lines ''a'' = Some (session_a\<lparr>lastActivity := 2, outputBuffer := [''x'', ''y'']\<rparr>)"
  apply (simp add: two_lines_def one_session_eq on_stdout_def lookup_def getSession_def emit_def
      modify_def appendOutput_def Let_def MAX_OUTPUT_BUFFER_LINES_def newline_def)
  apply (simp add: session_a_def)
  done

lemmas eval_defs = createSession_def kill_def restart_def interrupt_def updateStatus_def
  on_error_def on_exit_def emit_def modify_def lookup_def getSession_def getSessions_def
  truthy_def or_else_def Let_def build_args_def default_flags_def env_a_def env_b_def env_c_def
  named_def no_options_def

lemma restarted_eq:
  "restarted =
     \<lparr>sessions = [(''a'', 1)], sessionCounter = 2,
      heap = (\<lambda>_. None)(0 \<mapsto> session_a, 1 \<mapsto> session_a2),
      nextRef = 2, events = []\<rparr>"
  by (simp add: restarted_def one_session_eq eval_defs)
     (simp add: session_a_def session_a2_def)

lemma three_sessions_eq:
  "three_sessions =
     \<lparr>sessions = [(''a'', 0), (''b'', 1), (''c'', 2)], sessionCounter = 3,
      heap = (\<lambda>_. None)(0 \<mapsto> session_a\<lparr>process := (process session_a)\<lparr>killed := True\<rparr>\<rparr>,
                          1 \<mapsto> session_b\<lparr>status := Offline\<rparr>, 2 \<mapsto> session_c),
      nextRef = 3, events = [StatusChange ''b'' Offline]\<rparr>"
  by (simp add: three_sessions_def one_session_eq eval_defs)
     (auto simp add: session_a_def session_b_def session_c_def fun_upd_twist)

lemma errored_eq:
  "errored =
     \<lparr>sessions = [(''a'', 0)], sessionCounter = 1,
      heap = (\<lambda>_. None)(0 \<mapsto> session_a\<lparr>status := Offline\<rparr>),
      nextRef = 1, events = [Error ''a'' ''spawn EACCES'', StatusChange ''a'' Offline]\<rparr>"
  by (simp add: errored_def one_session_eq eval_defs)
     (simp add: session_a_def)

lemma exited_with_code_eq:
  "exited_with_code =
     \<lparr>sessions = [(''a'', 0)], sessionCounter = 1,
      heap = (\<lambda>_. None)(0 \<mapsto> session_a\<lparr>process := (process session_a)\<lparr>exitCode := Some 3\<rparr>,
                                         status := Offline\<rparr>),
      nextRef = 1, events = [Exit ''a'' (Some 3), StatusChange ''a'' Offline]\<rparr>"
  by (simp add: exited_with_code_def process_exited_def one_session_eq on_exit_def emit_def
      modify_def)
     (simp add: session_a_def)

lemma exited_by_signal_eq:
  "exited_by_signal =
     \<lparr>sessions = [(''a'', 0)], sessionCounter = 1,
      heap = (\<lambda>_. None)(0 \<mapsto> session_a\<lparr>status := Offline\<rparr>),
      nextRef = 1, events = [Exit ''a'' None, StatusChange ''a'' Offline]\<rparr>"
  by (simp add: exited_by_signal_def process_exited_def one_session_eq on_exit_def emit_def
      modify_def)
     (simp add: session_a_def)

section \<open>The bounded output buffer\<close>

lemma slice_from_neg: "0 < k \<Longrightarrow> slice_from (- int k) xs = drop (length xs - k) xs"
  by (simp add: slice_from_def Let_def max_def nat_diff_distrib')

lemma trim_recent:
  "(if length buf > MAX_OUTPUT_BUFFER_LINES
    then slice_from (- int MAX_OUTPUT_BUFFER_LINES) buf else buf) = recent_lines buf"
  using slice_from_neg [of MAX_OUTPUT_BUFFER_LINES buf]
  by (simp add: recent_lines_def MAX_OUTPUT_BUFFER_LINES_def)

lemma appendOutput_buffer:
  "outputBuffer (appendOutput s text) = recent_lines (outputBuffer s @ split_nl text)"
  unfolding appendOutput_def Let_def by (simp only: trim_recent) simp

lemma length_recent_lines: "length (recent_lines xs) \<le> MAX_OUTPUT_BUFFER_LINES"
  by (simp add: recent_lines_def)





lemma split_nl_nonempty [simp]: "split_nl str \<noteq> []"
  by (cases str) simp_all






lemma split_nl_terminated: "split_nl (str @ [newline]) = split_nl str @ [[]]"
proof (induction str)
  case Nil
  show ?case by simp
next
  case (Cons c cs)
  then show ?case by (cases "split_nl cs") simp_all
qed








section \<open>Absent sessions and failures\<close>

text \<open>
  Claim C6. For an id that is not in the registry, every operation gives its absent
  result and leaves the manager as it is: \<open>sendInput\<close>, \<open>interrupt\<close> and \<open>kill\<close> return
  false, \<open>getOutput\<close> the empty string, \<open>restart\<close> null, and \<open>updateStatus\<close> and
  \<open>linkClaudeSession\<close> do nothing. None of them has an error result at such an id.
\<close>
theorem absent_id_results:
  "getSession m i = None \<Longrightarrow>
     sendInput wr now i input m = (False, m) \<and>
     interrupt w wr sg now i m = (False, m) \<and>
     kill w ex sg i m = (False, m) \<and>
     getOutput m i lines = [] \<and>
     restart w ex sg env i m = (Inr None, m) \<and>
     updateStatus i st m = m \<and>
     linkClaudeSession i c m = m"
  by (simp add: sendInput_def interrupt_def kill_def getOutput_def restart_def
        updateStatus_def linkClaudeSession_def lookup_def)

theorem absent_id_results_witness:
  "getSession one_session ''non-existent'' = None \<and>
   sendInput WriteOk 7 ''non-existent'' ''test input'' one_session = (False, one_session) \<and>
   interrupt True WriteOk SignalDelivered 7 ''non-existent'' one_session = (False, one_session) \<and>
   kill True ExecOk SignalDelivered ''non-existent'' one_session = (False, one_session) \<and>
   getOutput one_session ''non-existent'' (Some 10) = [] \<and>
   restart True ExecOk SignalDelivered env_a ''non-existent'' one_session = (Inr None, one_session) \<and>
   updateStatus ''non-existent'' Working one_session = one_session \<and>
   linkClaudeSession ''non-existent'' ''claude-id'' one_session = one_session"
proof -
  have absent: "getSession one_session ''non-existent'' = None"
    by (simp add: one_session_eq getSession_def)
  show ?thesis
    using absent
      absent_id_results [OF absent, of WriteOk 7 "''test input''" True SignalDelivered ExecOk
        "Some 10" env_a Working "''claude-id''"]
    by simp
qed

text \<open>
  Claim C7. When the executable is not found, \<open>createSession\<close> fails with an error and
  registers nothing: the registry, the store and the notification log are as before
  (only the name counter has advanced).
\<close>
theorem createSession_not_found:
  "\<not> truthy (claudePath env) \<Longrightarrow>
     fst (createSession env options m) = Inl ClaudeNotFound \<and>
     sessions (snd (createSession env options m)) = sessions m \<and>
     heap (snd (createSession env options m)) = heap m \<and>
     events (snd (createSession env options m)) = events m"
  by (simp add: createSession_def Let_def)

theorem createSession_not_found_witness:
  "\<not> truthy (claudePath (env_a\<lparr>claudePath := None\<rparr>)) \<and>
   fst (createSession (env_a\<lparr>claudePath := None\<rparr>) no_options one_session) = Inl ClaudeNotFound \<and>
   sessions (snd (createSession (env_a\<lparr>claudePath := None\<rparr>) no_options one_session)) = [(''a'', 0)]"
proof -
  have nf: "\<not> truthy (claudePath (env_a\<lparr>claudePath := None\<rparr>))"
    by (simp add: truthy_def)
  show ?thesis
    using nf createSession_not_found [OF nf, of no_options one_session]
    by (simp add: one_session_eq)
qed

text \<open>
  What \<open>sendInput\<close> returns in each case: true when the write is accepted and also when
  it fails without raising; false for an absent session, a null stream or a write that
  raises.
\<close>
lemma sendInput_results:
  "(lookup m i = Some s \<and> stdin (process s) = Some written \<and> wr = WriteOk \<longrightarrow>
      fst (sendInput wr now i input m) = True \<and>
      lookup (snd (sendInput wr now i input m)) i =
        Some (s\<lparr>process := (process s)\<lparr>stdin := Some (written @ [input @ [newline]])\<rparr>,
                lastActivity := now\<rparr>)) \<and>
   (lookup m i = Some s \<and> stdin (process s) = Some written \<and> wr = WriteFails \<longrightarrow>
      fst (sendInput wr now i input m) = True \<and>
      lookup (snd (sendInput wr now i input m)) i = Some (s\<lparr>lastActivity := now\<rparr>)) \<and>
   (lookup m i = None \<or> (\<exists>s. lookup m i = Some s \<and> stdin (process s) = None) \<or> wr = WriteThrows \<longrightarrow>
      sendInput wr now i input m = (False, m))"
  by (cases wr) (auto simp: sendInput_def lookup_def modify_def getSession_def split: option.splits)

text \<open>
  Claim C8 at a session whose process has exited. Its input stream is then destroyed
  but not null, and writing to it fails without raising. \<open>sendInput\<close> tests only for a
  null stream and catches only a raised error, so it returns true and advances
  \<open>lastActivity\<close> although nothing was written, where the claim has false and an
  unchanged \<open>lastActivity\<close>.
\<close>
theorem sendInput_after_exit_reports_success:
  "events exited_with_code = [Exit ''a'' (Some 3), StatusChange ''a'' Offline] \<and>
   map_option lastActivity (lookup exited_with_code ''a'') = Some 1 \<and>
   fst (sendInput WriteFails 9 ''a'' ''hello'' exited_with_code) = True \<and>
   map_option lastActivity
     (lookup (snd (sendInput WriteFails 9 ''a'' ''hello'' exited_with_code)) ''a'') = Some 9 \<and>
   map_option (\<lambda>s. stdin (process s))
     (lookup (snd (sendInput WriteFails 9 ''a'' ''hello'' exited_with_code)) ''a'') = Some (Some [])"
  by (simp add: exited_with_code_eq session_a_def sendInput_def lookup_def getSession_def
      modify_def)

text \<open>
  Claim C4. For an id that is not registered \<open>kill\<close> returns false and changes nothing.
  For a registered id it removes the record (the id is no longer a key, the other ids
  resolve as before) and returns true, also when the termination call reports an error:
  on Windows when the \<^verbatim>\<open>taskkill\<close> command raises, elsewhere when the signal is not
  delivered. The termination signal is \<^verbatim>\<open>SIGTERM\<close>, for which the signal call does
  not raise.
\<close>
theorem kill_removes_record:
  "(getSession m i = None \<longrightarrow> kill w ex sg i m = (False, m)) \<and>
   (getSession m i \<noteq> None \<and> (w \<or> sg \<noteq> SignalThrows) \<longrightarrow>
      fst (kill w ex sg i m) = True \<and>
      getSession (snd (kill w ex sg i m)) i = None \<and>
      i \<notin> fst ` set (sessions (snd (kill w ex sg i m))) \<and>
      (\<forall>j. j \<noteq> i \<longrightarrow> getSession (snd (kill w ex sg i m)) j = getSession m j))"
  by (cases sg; cases ex)
     (auto simp: kill_def getSession_def modify_def Let_def delete_conv delete_notin_dom
           split: option.splits)

theorem kill_removes_record_witness:
  "getSession one_session ''a'' \<noteq> None \<and>
   fst (kill True ExecThrows SignalDelivered ''a'' one_session) = True \<and>
   getSession (snd (kill True ExecThrows SignalDelivered ''a'' one_session)) ''a'' = None \<and>
   fst (kill False ExecOk SignalNotDelivered ''a'' one_session) = True \<and>
   getSession (snd (kill False ExecOk SignalNotDelivered ''a'' one_session)) ''a'' = None \<and>
   sessions (snd (kill False ExecOk SignalNotDelivered ''a'' one_session)) = [] \<and>
   kill False ExecOk SignalDelivered ''zz'' one_session = (False, one_session)"
proof -
  have reg: "getSession one_session ''a'' \<noteq> None" "getSession one_session ''zz'' = None"
    by (simp_all add: one_session_eq getSession_def)
  have "sessions (snd (kill False ExecOk SignalNotDelivered ''a'' one_session)) = []"
    by (simp add: one_session_eq kill_def getSession_def)
  then show ?thesis
    using reg kill_removes_record [of one_session "''a''" True ExecThrows SignalDelivered]
      kill_removes_record [of one_session "''a''" False ExecOk SignalNotDelivered]
      kill_removes_record [of one_session "''zz''" False ExecOk SignalDelivered]
    by simp
qed

text \<open>
  Claim C10. For a registered session, a line limit of \<open>0\<close> selects the whole buffer,
  joined with newlines: the same result as with no limit.
\<close>
theorem getOutput_zero_is_unlimited:
  "lookup m i = Some s \<Longrightarrow>
     getOutput m i (Some 0) = join_nl (outputBuffer s) \<and>
     getOutput m i (Some 0) = getOutput m i None"
  by (simp add: getOutput_def)

theorem getOutput_zero_is_unlimited_witness:
  "lookup two_lines ''a'' = Some (session_a\<lparr>lastActivity := 2, outputBuffer := [''x'', ''y'']\<rparr>) \<and>
   getOutput two_lines ''a'' (Some 0) = ''x\<newline>y'' \<and>
   getOutput two_lines ''a'' (Some 1) = ''y''"
  using getOutput_zero_is_unlimited [OF two_lines_lookup]
  by (simp add: two_lines_lookup getOutput_def slice_from_def newline_def)

section \<open>Well-formed states are preserved\<close>

lemma modify_sessions [simp]: "sessions (modify r f m) = sessions m"
  by (simp add: modify_def split: option.splits)

lemma modify_nextRef [simp]: "nextRef (modify r f m) = nextRef m"
  by (simp add: modify_def split: option.splits)

lemma modify_events [simp]: "events (modify r f m) = events m"
  by (simp add: modify_def split: option.splits)

lemma modify_heap: "heap (modify r f m) = (heap m)(r := map_option f (heap m r))"
  by (auto simp: modify_def split: option.splits)

lemma set_update_subset: "set (AList.update k v al) \<subseteq> insert (k, v) (set al)"
  by (induction al) auto

lemma set_delete_subset: "set (AList.delete k al) \<subseteq> set al"
  by (auto simp: AList.delete_eq)

lemma distinct_snd_update:
  "distinct (map snd al) \<Longrightarrow> v \<notin> snd ` set al \<Longrightarrow> distinct (map snd (AList.update k v al))"
proof (induction al)
  case Nil
  show ?case by simp
next
  case (Cons p al)
  have "snd ` set (AList.update k v al) \<subseteq> insert v (snd ` set al)"
    using set_update_subset [of k v al] by force
  with Cons show ?case by (auto simp: image_iff)
qed

lemma distinct_snd_delete:
  "distinct (map snd al) \<Longrightarrow> distinct (map snd (AList.delete k al))"
  by (simp add: AList.delete_eq distinct_map_filter)

lemma well_formedI:
  assumes "distinct (map fst (sessions m))" and "distinct (map snd (sessions m))"
    and "\<And>k r. (k, r) \<in> set (sessions m) \<Longrightarrow>
           r < nextRef m \<and>
           (case heap m r of
              None \<Rightarrow> False
            | Some s \<Rightarrow> id_field s = k \<and> length (outputBuffer s) \<le> MAX_OUTPUT_BUFFER_LINES)"
  shows "well_formed m"
  using assms by (auto simp: well_formed_def)

lemma well_formedD:
  assumes "well_formed m"
  shows "distinct (map fst (sessions m))" and "distinct (map snd (sessions m))"
    and "(k, r) \<in> set (sessions m) \<Longrightarrow>
           r < nextRef m \<and>
           (case heap m r of
              None \<Rightarrow> False
            | Some s \<Rightarrow> id_field s = k \<and> length (outputBuffer s) \<le> MAX_OUTPUT_BUFFER_LINES)"
  using assms by (auto simp: well_formed_def)

lemma wf_init: "well_formed init_manager"
  by (simp add: well_formed_def init_manager_def)

lemma wf_emit [simp]: "well_formed (emit e m) = well_formed m"
  by (simp add: well_formed_def emit_def)

lemma wf_modify:
  assumes "well_formed m"
    and "\<And>s. id_field (f s) = id_field s"
    and "\<And>s. length (outputBuffer s) \<le> MAX_OUTPUT_BUFFER_LINES
            \<Longrightarrow> length (outputBuffer (f s)) \<le> MAX_OUTPUT_BUFFER_LINES"
  shows "well_formed (modify r f m)"
  using assms by (auto simp: well_formed_def modify_heap split: option.splits) 

lemma wf_delete: "well_formed m \<Longrightarrow> well_formed (m\<lparr>sessions := AList.delete k (sessions m)\<rparr>)"
  using set_delete_subset [of k "sessions m"]
  by (auto simp: well_formed_def distinct_delete distinct_snd_delete)

lemma createSession_success:
  fixes env :: create_env and options :: create_options and m :: manager
  assumes "truthy (claudePath env)" and "spawned env = Some (p, has_stdin)"
  defines "s \<equiv> the (heap (snd (createSession env options m)) (nextRef m))"
  shows "createSession env options m =
           (Inr (nextRef m),
            m\<lparr>sessionCounter := sessionCounter m + 1,
              heap := (heap m)(nextRef m \<mapsto> s),
              nextRef := nextRef m + 1,
              sessions := AList.update (uuid env) (nextRef m) (sessions m)\<rparr>)"
    and "id_field s = uuid env" and "outputBuffer s = []" and "status s = Idle"
    and "name s = or_else (opt_name options) (''Claude '' @ show_nat (sessionCounter m + 1))"
    and "cwd s = or_else (opt_cwd options) (processCwd env)"
    and "pid (process s) = p" and "capturedId (process s) = uuid env"
    and "killed (process s) = False" and "exitCode (process s) = None"
  using assms(1,2) unfolding s_def by (simp_all add: createSession_def Let_def)

lemma createSession_failure:
  assumes "\<not> truthy (claudePath env) \<or> spawned env = None"
  shows "\<exists>e. createSession env options m = (Inl e, m\<lparr>sessionCounter := sessionCounter m + 1\<rparr>)"
  using assms by (auto simp: createSession_def Let_def)

lemma wf_counter [simp]: "well_formed (m\<lparr>sessionCounter := n\<rparr>) = well_formed m"
  by (simp add: well_formed_def)

lemma wf_createSession: "well_formed m \<Longrightarrow> well_formed (snd (createSession env options m))"
proof (cases "truthy (claudePath env) \<and> spawned env \<noteq> None")
  case False
  then have "\<not> truthy (claudePath env) \<or> spawned env = None"
    by (cases "spawned env") auto
  moreover assume "well_formed m"
  ultimately show ?thesis
    using createSession_failure [of env options m] by auto
next
  case True
  assume w: "well_formed m"
  from True obtain p hs where sp: "spawned env = Some (p, hs)" by auto
  from True have t: "truthy (claudePath env)" by simp
  define s where "s = the (heap (snd (createSession env options m)) (nextRef m))"
  note cs = createSession_success [OF t sp, of options m]
  have s: "id_field s = uuid env" "outputBuffer s = []"
    unfolding s_def by (rule cs(2), rule cs(3))
  have eq: "snd (createSession env options m) =
               m\<lparr>sessionCounter := sessionCounter m + 1,
                  heap := (heap m)(nextRef m \<mapsto> s),
                  nextRef := nextRef m + 1,
                  sessions := AList.update (uuid env) (nextRef m) (sessions m)\<rparr>"
    by (subst cs(1)) (simp only: snd_conv s_def)
  have fresh: "nextRef m \<notin> snd ` set (sessions m)"
    using w by (auto simp: well_formed_def)
  have entry: "r < nextRef m + 1 \<and>
        (case ((heap m)(nextRef m \<mapsto> s)) r of
           None \<Rightarrow> False
         | Some s \<Rightarrow> id_field s = k \<and> length (outputBuffer s) \<le> MAX_OUTPUT_BUFFER_LINES)"
    if "(k, r) \<in> set (AList.update (uuid env) (nextRef m) (sessions m))" for k r
  proof (cases "(k, r) = (uuid env, nextRef m)")
    case True
    then show ?thesis using s by simp
  next
    case False
    with that set_update_subset [of "uuid env" "nextRef m" "sessions m"]
    have "(k, r) \<in> set (sessions m)" by auto
    with w show ?thesis by (auto simp: well_formed_def)
  qed
  show ?thesis
    unfolding eq
  proof (rule well_formedI)
    show "distinct (map fst (sessions (m\<lparr>sessionCounter := sessionCounter m + 1,
                  heap := (heap m)(nextRef m \<mapsto> s),
                  nextRef := nextRef m + 1,
                  sessions := AList.update (uuid env) (nextRef m) (sessions m)\<rparr>)))"
      using well_formedD(1) [OF w] by (simp add: distinct_update)
    show "distinct (map snd (sessions (m\<lparr>sessionCounter := sessionCounter m + 1,
                  heap := (heap m)(nextRef m \<mapsto> s),
                  nextRef := nextRef m + 1,
                  sessions := AList.update (uuid env) (nextRef m) (sessions m)\<rparr>)))"
      using well_formedD(2) [OF w] fresh by (simp add: distinct_snd_update)
  qed (use entry in simp)
qed

lemma kill_cases:
  "snd (kill w ex sg i m) = m \<or>
   (\<exists>r. getSession m i = Some r \<and>
      (snd (kill w ex sg i m) = m\<lparr>sessions := AList.delete i (sessions m)\<rparr> \<or>
       snd (kill w ex sg i m) =
         (modify r (\<lambda>s. s\<lparr>process := (process s)\<lparr>killed := True\<rparr>\<rparr>) m)
           \<lparr>sessions := AList.delete i (sessions m)\<rparr>))"
  by (cases sg; cases ex) (auto simp: kill_def Let_def split: option.splits)

lemma wf_kill: "well_formed m \<Longrightarrow> well_formed (snd (kill w ex sg i m))"
  using kill_cases [of w ex sg i m]
    wf_delete [of m i]
    wf_delete [of "modify r (\<lambda>s. s\<lparr>process := (process s)\<lparr>killed := True\<rparr>\<rparr>) m" i for r]
    wf_modify [of m "\<lambda>s. s\<lparr>process := (process s)\<lparr>killed := True\<rparr>\<rparr>"]
  by auto


lemma kill_nextRef [simp]: "nextRef (snd (kill w ex sg i m)) = nextRef m"
  using kill_cases [of w ex sg i m] by auto

lemma restart_success:
  fixes env :: create_env and m :: manager and w :: bool and ex :: exec_outcome
    and sg :: signal_outcome and i :: session_id and existing :: managed_process
  assumes look: "lookup m i = Some existing"
    and t: "truthy (claudePath env)" and sp: "spawned env = Some (p, has_stdin)"
  defines "m1 \<equiv> snd (kill w ex sg i m)"
  defines "options \<equiv> \<lparr>opt_name = Some (name existing), opt_cwd = Some (cwd existing),
                        opt_flags = None\<rparr>"
  defines "s \<equiv> the (heap (snd (createSession env options m1)) (nextRef m1))"
  shows "restart w ex sg env i m =
           (Inr (Some (nextRef m1)),
            m1\<lparr>sessionCounter := sessionCounter m1 + 1,
               heap := (heap m1)(nextRef m1 \<mapsto> s\<lparr>id_field := i\<rparr>),
               nextRef := nextRef m1 + 1,
               sessions := AList.update i (nextRef m1) (AList.delete (uuid env) (sessions m1))\<rparr>)"
proof -
  note cs = createSession_success [OF t sp, of options m1, folded s_def]
  have "restart w ex sg env i m =
          (case fst (createSession env options m1) of
             Inl e \<Rightarrow> (Inl e, snd (createSession env options m1))
           | Inr r \<Rightarrow>
               (case heap (snd (createSession env options m1)) r of
                  None \<Rightarrow> (Inr (Some r), snd (createSession env options m1))
                | Some session \<Rightarrow>
                    (let m3 = (snd (createSession env options m1))
                                \<lparr>sessions := AList.delete (id_field session)
                                               (sessions (snd (createSession env options m1)))\<rparr>;
                         m4 = modify r (\<lambda>s. s\<lparr>id_field := i\<rparr>) m3
                     in (Inr (Some r), m4\<lparr>sessions := AList.update i r (sessions m4)\<rparr>))))"
    unfolding restart_def m1_def options_def using look by (simp add: Let_def)
  also have "\<dots> = (Inr (Some (nextRef m1)),
            m1\<lparr>sessionCounter := sessionCounter m1 + 1,
               heap := (heap m1)(nextRef m1 \<mapsto> s\<lparr>id_field := i\<rparr>),
               nextRef := nextRef m1 + 1,
               sessions := AList.update i (nextRef m1) (AList.delete (uuid env) (sessions m1))\<rparr>)"
    unfolding cs(1) by (simp add: Let_def modify_def cs(2) delete_update_same)
  finally show ?thesis .
qed


lemma well_formed_lookup:
  assumes "well_formed m" and "getSession m i = Some r"
  shows "\<exists>s. lookup m i = Some s \<and> heap m r = Some s \<and> id_field s = i"
proof -
  from assms(2) have "(i, r) \<in> set (sessions m)"
    by (simp add: getSession_def map_of_SomeD)
  from well_formedD(3) [OF assms(1) this] assms(2) show ?thesis
    by (auto simp: lookup_def split: option.splits)
qed

lemma well_formed_key_of_id:
  assumes "well_formed m" and "(k, r) \<in> set (sessions m)" and "heap m r = Some s"
  shows "id_field s = k"
  using well_formedD(3) [OF assms(1,2)] assms(3) by simp

lemma well_formed_unique_key:
  assumes "well_formed m" and "(k, r) \<in> set (sessions m)" and "getSession m k = Some r'"
  shows "r = r'"
  using well_formedD(1) [OF assms(1)] assms(2,3) by (simp add: getSession_def)

lemma wf_restart_state:
  assumes w: "well_formed m1" and s: "outputBuffer s = []"
  shows "well_formed
           (m1\<lparr>sessionCounter := c,
               heap := (heap m1)(nextRef m1 \<mapsto> s\<lparr>id_field := i\<rparr>),
               nextRef := nextRef m1 + 1,
               sessions := AList.update i (nextRef m1) (AList.delete u (sessions m1))\<rparr>)"
proof (rule well_formedI)
  let ?al = "AList.delete u (sessions m1)"
  have old: "r < nextRef m1" if "(k, r) \<in> set ?al" for k r
    using that set_delete_subset [of u "sessions m1"] well_formedD(3) [OF w, of k r] by auto
  then have fresh: "nextRef m1 \<notin> snd ` set ?al" by force
  show "distinct (map fst (sessions (m1\<lparr>sessionCounter := c,
               heap := (heap m1)(nextRef m1 \<mapsto> s\<lparr>id_field := i\<rparr>),
               nextRef := nextRef m1 + 1,
               sessions := AList.update i (nextRef m1) ?al\<rparr>)))"
    using well_formedD(1) [OF w] by (simp add: distinct_update distinct_delete)
  show "distinct (map snd (sessions (m1\<lparr>sessionCounter := c,
               heap := (heap m1)(nextRef m1 \<mapsto> s\<lparr>id_field := i\<rparr>),
               nextRef := nextRef m1 + 1,
               sessions := AList.update i (nextRef m1) ?al\<rparr>)))"
    using well_formedD(2) [OF w] fresh by (simp add: distinct_snd_update distinct_snd_delete)
  fix k r
  assume "(k, r) \<in> set (sessions (m1\<lparr>sessionCounter := c,
               heap := (heap m1)(nextRef m1 \<mapsto> s\<lparr>id_field := i\<rparr>),
               nextRef := nextRef m1 + 1,
               sessions := AList.update i (nextRef m1) ?al\<rparr>))"
  then have "(k, r) = (i, nextRef m1) \<or> (k, r) \<in> set ?al"
    using set_update_subset [of i "nextRef m1" ?al] by auto
  then show "r < nextRef (m1\<lparr>sessionCounter := c,
               heap := (heap m1)(nextRef m1 \<mapsto> s\<lparr>id_field := i\<rparr>),
               nextRef := nextRef m1 + 1,
               sessions := AList.update i (nextRef m1) ?al\<rparr>) \<and>
           (case heap (m1\<lparr>sessionCounter := c,
               heap := (heap m1)(nextRef m1 \<mapsto> s\<lparr>id_field := i\<rparr>),
               nextRef := nextRef m1 + 1,
               sessions := AList.update i (nextRef m1) ?al\<rparr>) r of
              None \<Rightarrow> False
            | Some s \<Rightarrow> id_field s = k \<and> length (outputBuffer s) \<le> MAX_OUTPUT_BUFFER_LINES)"
  proof
    assume "(k, r) = (i, nextRef m1)"
    then show ?thesis using s by simp
  next
    assume in_al: "(k, r) \<in> set ?al"
    then have "(k, r) \<in> set (sessions m1)"
      using set_delete_subset [of u "sessions m1"] by auto
    from well_formedD(3) [OF w this] old [OF in_al] show ?thesis by simp
  qed
qed

lemma appendOutput_id_field [simp]: "id_field (appendOutput s text) = id_field s"
  by (simp add: appendOutput_def Let_def)

lemma appendOutput_length: "length (outputBuffer (appendOutput s text)) \<le> MAX_OUTPUT_BUFFER_LINES"
  by (simp add: appendOutput_buffer length_recent_lines)

lemma wf_on_stdout: "well_formed m \<Longrightarrow> well_formed (on_stdout r now text m)"
  by (auto simp: on_stdout_def appendOutput_length intro!: wf_modify split: option.splits)

lemma wf_on_stderr: "well_formed m \<Longrightarrow> well_formed (on_stderr r now text m)"
  by (auto simp: on_stderr_def appendOutput_length intro!: wf_modify)

lemma wf_on_exit: "well_formed m \<Longrightarrow> well_formed (on_exit r code m)"
  by (auto simp: on_exit_def intro!: wf_modify split: option.splits)

lemma wf_on_error: "well_formed m \<Longrightarrow> well_formed (on_error r err m)"
  by (auto simp: on_error_def intro!: wf_modify split: option.splits)

lemma wf_process_exited: "well_formed m \<Longrightarrow> well_formed (process_exited r code m)"
  by (auto simp: process_exited_def intro!: wf_on_exit wf_modify)

lemma wf_sendInput: "well_formed m \<Longrightarrow> well_formed (snd (sendInput wr now i input m))"
  by (auto simp: sendInput_def intro!: wf_modify split: option.splits write_outcome.splits)

lemma wf_interrupt: "well_formed m \<Longrightarrow> well_formed (snd (interrupt w wr sg now i m))"
  by (auto simp: interrupt_def intro!: wf_modify
      split: option.splits write_outcome.splits signal_outcome.splits)

lemma wf_updateStatus: "well_formed m \<Longrightarrow> well_formed (updateStatus i st m)"
  by (auto simp: updateStatus_def intro!: wf_modify split: option.splits)

lemma wf_linkClaudeSession: "well_formed m \<Longrightarrow> well_formed (linkClaudeSession i c m)"
  by (auto simp: linkClaudeSession_def intro!: wf_modify split: option.splits)

lemma wf_check_session: "well_formed m \<Longrightarrow> well_formed (check_session m r)"
  by (auto simp: check_session_def intro!: wf_modify split: option.splits)

lemma wf_checkHealth: "well_formed m \<Longrightarrow> well_formed (checkHealth m)"
proof -
  have "well_formed m \<Longrightarrow> well_formed (foldl check_session m rs)" for rs
    by (induction rs arbitrary: m) (simp_all add: wf_check_session)
  then show "well_formed m \<Longrightarrow> well_formed (checkHealth m)"
    by (simp add: checkHealth_def)
qed

lemma wf_cleanup: "well_formed m \<Longrightarrow> well_formed (cleanup w exs sgs m)"
proof -
  have "well_formed m \<Longrightarrow>
        well_formed (foldl (\<lambda>m i. snd (kill w (exs i) (sgs i) i m)) m ks)" for ks
    by (induction ks arbitrary: m) (simp_all add: wf_kill)
  then show "well_formed m \<Longrightarrow> well_formed (cleanup w exs sgs m)"
    by (simp add: cleanup_def)
qed

lemma wf_restart: "well_formed m \<Longrightarrow> well_formed (snd (restart w ex sg env i m))"
proof (cases "lookup m i")
  case None
  assume "well_formed m"
  with None show ?thesis by (simp add: restart_def)
next
  case (Some existing)
  assume w: "well_formed m"
  let ?options = "\<lparr>opt_name = Some (name existing), opt_cwd = Some (cwd existing),
                   opt_flags = None\<rparr>"
  let ?m1 = "snd (kill w ex sg i m)"
  have w1: "well_formed ?m1" by (rule wf_kill [OF w])
  show ?thesis
  proof (cases "truthy (claudePath env) \<and> spawned env \<noteq> None")
    case True
    then obtain p hs where sp: "spawned env = Some (p, hs)" by auto
    from True have t: "truthy (claudePath env)" by simp
    note cs = createSession_success [OF t sp, of ?options ?m1]
    show ?thesis
      by (subst restart_success [OF Some t sp], simp only: snd_conv)
         (rule wf_restart_state [OF w1 cs(3)])
  next
    case False
    then have "\<not> truthy (claudePath env) \<or> spawned env = None"
      by (cases "spawned env") auto
    from createSession_failure [OF this, of ?options ?m1]
    obtain e where "createSession env ?options ?m1 =
        (Inl e, ?m1\<lparr>sessionCounter := sessionCounter ?m1 + 1\<rparr>)" by auto
    with Some w1 show ?thesis by (simp add: restart_def Let_def)
  qed
qed

lemma reachable_well_formed: "reachable m \<Longrightarrow> well_formed m"
proof (induction rule: reachable.induct)
  case r_init
  show ?case by (rule wf_init)
qed (simp_all add: wf_createSession wf_sendInput wf_interrupt wf_kill wf_checkHealth
      wf_updateStatus wf_linkClaudeSession wf_restart wf_cleanup wf_on_stdout wf_on_stderr
      wf_process_exited wf_on_error)

lemma wf_one_session: "well_formed one_session"
  unfolding one_session_def by (rule wf_createSession [OF wf_init])

lemma wf_three_sessions: "well_formed three_sessions"
  by (simp add: three_sessions_eq well_formed_def session_a_def session_b_def session_c_def
      MAX_OUTPUT_BUFFER_LINES_def)

section \<open>Restart\<close>

text \<open>
  Claim C1. On a well-formed manager, restarting a registered id whose executable is found
  and spawned returns a new session object; afterwards the id resolves to that object,
  whose \<^verbatim>\<open>id\<close> field is the original id and which is idle with an empty buffer; the
  freshly minted id (when it differs from the original) is no longer a key; and no other
  registered object carries the original id. The resulting manager is well-formed again.
\<close>
theorem restart_preserves_id:
  fixes env :: create_env and m :: manager and w :: bool and ex :: exec_outcome
    and sg :: signal_outcome and i :: session_id
  assumes wf: "well_formed m" and reg: "getSession m i \<noteq> None"
    and t: "truthy (claudePath env)" and sp: "spawned env = Some (p, has_stdin)"
  defines "m' \<equiv> snd (restart w ex sg env i m)"
  shows "\<exists>r s. fst (restart w ex sg env i m) = Inr (Some r) \<and>
           r \<notin> snd ` set (sessions m) \<and>
           getSession m' i = Some r \<and> heap m' r = Some s \<and>
           id_field s = i \<and> pid (process s) = p \<and> status s = Idle \<and> outputBuffer s = [] \<and>
           (uuid env \<noteq> i \<longrightarrow> getSession m' (uuid env) = None) \<and>
           (\<forall>(k, r') \<in> set (sessions m').
              \<forall>s'. heap m' r' = Some s' \<and> id_field s' = i \<longrightarrow> k = i \<and> r' = r) \<and>
           well_formed m'"
proof -
  from reg obtain r0 where r0: "getSession m i = Some r0" by auto
  from well_formed_lookup [OF wf r0] obtain existing where look: "lookup m i = Some existing"
    by auto
  define m1 where "m1 = snd (kill w ex sg i m)"
  define options where "options = \<lparr>opt_name = Some (name existing), opt_cwd = Some (cwd existing),
                        opt_flags = None\<rparr>"
  define s where "s = the (heap (snd (createSession env options m1)) (nextRef m1))"
  note cs = createSession_success [OF t sp, of options m1, folded s_def]
  have res: "restart w ex sg env i m =
           (Inr (Some (nextRef m1)),
            m1\<lparr>sessionCounter := sessionCounter m1 + 1,
               heap := (heap m1)(nextRef m1 \<mapsto> s\<lparr>id_field := i\<rparr>),
               nextRef := nextRef m1 + 1,
               sessions := AList.update i (nextRef m1) (AList.delete (uuid env) (sessions m1))\<rparr>)"
    unfolding m1_def s_def options_def by (rule restart_success [OF look t sp])
  have m': "m' = m1\<lparr>sessionCounter := sessionCounter m1 + 1,
               heap := (heap m1)(nextRef m1 \<mapsto> s\<lparr>id_field := i\<rparr>),
               nextRef := nextRef m1 + 1,
               sessions := AList.update i (nextRef m1) (AList.delete (uuid env) (sessions m1))\<rparr>"
    by (simp add: m'_def res)
  have wf1: "well_formed m1"
    unfolding m1_def by (rule wf_kill [OF wf])
  have wf': "well_formed m'"
    unfolding m' by (rule wf_restart_state [OF wf1 cs(3)])
  have new: "nextRef m1 \<notin> snd ` set (sessions m)"
    using well_formedD(3) [OF wf] by (force simp: m1_def)
  have get: "getSession m' i = Some (nextRef m1)"
    by (simp add: m' getSession_def update_conv')
  have hp: "heap m' (nextRef m1) = Some (s\<lparr>id_field := i\<rparr>)"
    by (simp add: m')
  have gone: "getSession m' (uuid env) = None" if "uuid env \<noteq> i"
    using that by (simp add: m' getSession_def update_conv' delete_conv')
  have others: "k = i \<and> r' = nextRef m1"
    if "(k, r') \<in> set (sessions m')" and "heap m' r' = Some s'" and "id_field s' = i" for k r' s'
  proof -
    from well_formed_key_of_id [OF wf' that(1,2)] that(3) have "k = i" by simp
    with well_formed_unique_key [OF wf' that(1)] get show ?thesis by simp
  qed
  show ?thesis
    apply (rule exI [of _ "nextRef m1"])
    apply (rule exI [of _ "s\<lparr>id_field := i\<rparr>"])
    using new get hp gone others wf' cs(3,4,7) by (auto simp: res)
qed

theorem restart_preserves_id_witness:
  "well_formed one_session \<and> getSession one_session ''a'' \<noteq> None \<and>
   truthy (claudePath env_b) \<and> spawned env_b = Some (200, True) \<and>
   fst (restart True ExecOk SignalDelivered env_b ''a'' one_session) = Inr (Some 1) \<and>
   getSession restarted ''a'' = Some 1 \<and>
   map_option id_field (heap restarted 1) = Some ''a'' \<and>
   getSession restarted ''b'' = None \<and>
   well_formed restarted"
proof -
  have reg: "getSession one_session ''a'' \<noteq> None"
    by (simp add: one_session_eq getSession_def)
  have t: "truthy (claudePath env_b)"
    by (simp add: env_b_def truthy_def)
  have sp: "spawned env_b = Some (200, True)"
    by (simp add: env_b_def)
  have r: "fst (restart True ExecOk SignalDelivered env_b ''a'' one_session) = Inr (Some 1)"
    by (simp add: one_session_eq eval_defs)
  show ?thesis
    using wf_one_session reg t sp r
      restart_preserves_id [OF wf_one_session reg t sp, of True ExecOk SignalDelivered]
    by (auto simp: restarted_def [symmetric]) (simp_all add: restarted_eq getSession_def env_b_def)
qed

text \<open>
  Claim C9 at a restarted session. The handlers of the new process close over the id
  minted by \<open>createSession\<close>, which \<open>restart\<close> then removes from the registry: after
  restarting \<open>''a''\<close> with minted id \<open>''b''\<close>, the session is registered under \<open>''a''\<close>
  and its \<^verbatim>\<open>id\<close> field is \<open>''a''\<close>, yet the exit and error notifications of its process
  carry \<open>''b''\<close>, which resolves to nothing.
\<close>
theorem exit_after_restart_carries_minted_id:
  "getSession restarted ''a'' = Some 1 \<and>
   getSession restarted ''b'' = None \<and>
   map_option id_field (heap restarted 1) = Some ''a'' \<and>
   events (on_exit 1 (Some 0) restarted) =
     events restarted @ [Exit ''b'' (Some 0), StatusChange ''b'' Offline] \<and>
   events (on_error 1 ''write EPIPE'' restarted) =
     events restarted @ [Error ''b'' ''write EPIPE'', StatusChange ''b'' Offline]"
  apply (simp add: restarted_eq getSession_def on_exit_def on_error_def emit_def modify_def)
  apply (simp add: session_a_def session_a2_def)
  done

section \<open>Health reconciliation\<close>

lemma check_session_sessions [simp]: "sessions (check_session m r) = sessions m"
  by (simp add: check_session_def emit_def modify_def split: option.splits)

lemma check_session_nextRef [simp]: "nextRef (check_session m r) = nextRef m"
  by (simp add: check_session_def emit_def modify_def split: option.splits)

lemma check_session_heap:
  "heap (check_session m r) =
     (heap m)(r := map_option (\<lambda>s. s\<lparr>status := reconciled s\<rparr>) (heap m r))"
  by (auto simp: check_session_def emit_def modify_def reconciled_def split: option.splits)

lemma check_session_events:
  "events (check_session m r) =
     events m @ (case heap m r of None \<Rightarrow> [] | Some s \<Rightarrow> health_notice (id_field s) s)"
  by (auto simp: check_session_def emit_def modify_def reconciled_def health_notice_def
      split: option.splits)

lemma foldl_check_session_sessions [simp]:
  "sessions (foldl check_session m rs) = sessions m"
  by (induction rs arbitrary: m) simp_all

lemma foldl_check_session_heap:
  "distinct rs \<Longrightarrow>
   heap (foldl check_session m rs) r =
     (if r \<in> set rs then map_option (\<lambda>s. s\<lparr>status := reconciled s\<rparr>) (heap m r)
      else heap m r)"
proof (induction rs arbitrary: m)
  case Nil
  show ?case by simp
next
  case (Cons a rs)
  then show ?case by (auto simp: check_session_heap)
qed

lemma foldl_check_session_events:
  "distinct rs \<Longrightarrow>
   events (foldl check_session m rs) =
     events m @ concat (map (\<lambda>r. case heap m r of None \<Rightarrow> []
                                  | Some s \<Rightarrow> health_notice (id_field s) s) rs)"
proof (induction rs arbitrary: m)
  case Nil
  show ?case by simp
next
  case (Cons a rs)
  from Cons.prems have a: "a \<notin> set rs" and d: "distinct rs" by simp_all
  have same: "map (\<lambda>r. case heap (check_session m a) r of None \<Rightarrow> []
                        | Some s \<Rightarrow> health_notice (id_field s) s) rs
            = map (\<lambda>r. case heap m r of None \<Rightarrow> []
                        | Some s \<Rightarrow> health_notice (id_field s) s) rs"
    using a by (intro map_cong) (auto simp: check_session_heap)
  show ?case
    using Cons.IH [OF d, of "check_session m a"]
    by (simp add: same check_session_events)
qed

text \<open>
  One run of \<open>checkHealth\<close> on a well-formed manager, relative to the test the code
  applies (\<open>isAlive\<close>: the \<^verbatim>\<open>killed\<close> flag is unset and no exit code is recorded): the
  registry stays as it is, every registered session gets its reconciled status, and the
  notifications are, in registry order, exactly one \<open>StatusChange\<close> with the session's id
  and new status for each session whose status changes, and none for the others.
\<close>
lemma checkHealth_reconciles:
  "well_formed m \<Longrightarrow>
     sessions (checkHealth m) = sessions m \<and>
     (\<forall>(k, r) \<in> set (sessions m).
        heap (checkHealth m) r = map_option (\<lambda>s. s\<lparr>status := reconciled s\<rparr>) (heap m r)) \<and>
     events (checkHealth m) =
       events m @ concat (map (\<lambda>(k, r). case heap m r of None \<Rightarrow> []
                                         | Some s \<Rightarrow> health_notice k s) (sessions m))"
proof -
  assume w: "well_formed m"
  then have d: "distinct (getSessions m)"
    by (simp add: well_formed_def getSessions_def)
  have ids: "map (\<lambda>r. case heap m r of None \<Rightarrow> [] | Some s \<Rightarrow> health_notice (id_field s) s)
                 (getSessions m)
           = map (\<lambda>(k, r). case heap m r of None \<Rightarrow> [] | Some s \<Rightarrow> health_notice k s)
                 (sessions m)"
    using w by (auto simp: getSessions_def well_formed_def split: option.splits)
  have heaps: "heap (checkHealth m) r = map_option (\<lambda>s. s\<lparr>status := reconciled s\<rparr>) (heap m r)"
    if "(k, r) \<in> set (sessions m)" for k r
  proof -
    from that have "r \<in> set (getSessions m)"
      by (force simp: getSessions_def)
    then show ?thesis
      using foldl_check_session_heap [OF d, of m r] by (simp add: checkHealth_def)
  qed
  have evs: "events (checkHealth m) =
       events m @ concat (map (\<lambda>(k, r). case heap m r of None \<Rightarrow> []
                                         | Some s \<Rightarrow> health_notice k s) (sessions m))"
    using foldl_check_session_events [OF d, of m] by (simp add: checkHealth_def ids)
  show ?thesis
    using heaps evs by (auto simp: checkHealth_def)
qed

lemma checkHealth_reconciles_example:
  "well_formed three_sessions \<and>
   sessions (checkHealth three_sessions) = [(''a'', 0), (''b'', 1), (''c'', 2)] \<and>
   map_option status (heap (checkHealth three_sessions) 0) = Some Offline \<and>
   map_option status (heap (checkHealth three_sessions) 1) = Some Idle \<and>
   map_option status (heap (checkHealth three_sessions) 2) = Some Idle \<and>
   events (checkHealth three_sessions) =
     events three_sessions @ [StatusChange ''a'' Offline, StatusChange ''b'' Idle]"
  using wf_three_sessions checkHealth_reconciles [OF wf_three_sessions]
  by (simp add: three_sessions_eq reconciled_def health_notice_def isAlive_def
      session_a_def session_b_def session_c_def)

text \<open>
  Claim C5 at a process that was terminated by a signal from outside. Such a process has
  exited, but Node records no exit code for it and does not set \<^verbatim>\<open>killed\<close>, which
  only tells that this manager sent a signal; the liveness test reads nothing else, so
  it takes the process for alive. The exit handler has set the session offline, and
  \<open>checkHealth\<close> sets it back to idle with a \<open>StatusChange\<close> to \<open>Idle\<close>, where the claim
  leaves an offline session whose process is not alive unchanged and silent.
\<close>
theorem checkHealth_revives_exited_session:
  "events exited_by_signal = [Exit ''a'' None, StatusChange ''a'' Offline] \<and>
   map_option status (lookup exited_by_signal ''a'') = Some Offline \<and>
   map_option status (lookup (checkHealth exited_by_signal) ''a'') = Some Idle \<and>
   events (checkHealth exited_by_signal) =
     [Exit ''a'' None, StatusChange ''a'' Offline, StatusChange ''a'' Idle]"
  by (simp add: exited_by_signal_eq checkHealth_def check_session_def getSessions_def
      lookup_def getSession_def modify_def emit_def isAlive_def)
     (simp add: session_a_def)

section \<open>Status notifications\<close>

lemma updateStatus_notifies_exactly_on_change:
  assumes "lookup m i = Some s"
  shows "events (updateStatus i st m) =
           events m @ (if status s = st then [] else [StatusChange i st])"
    and "lookup (updateStatus i st m) i = Some (s\<lparr>status := st\<rparr>)"
proof -
  from assms obtain r where r: "getSession m i = Some r" "heap m r = Some s"
    by (auto simp: lookup_def split: option.splits)
  show "events (updateStatus i st m) =
           events m @ (if status s = st then [] else [StatusChange i st])"
    using r by (simp add: updateStatus_def emit_def modify_def)
  show "lookup (updateStatus i st m) i = Some (s\<lparr>status := st\<rparr>)"
  proof (cases "status s = st")
    case True
    with r show ?thesis by (auto simp: updateStatus_def lookup_def)
  next
    case False
    with r show ?thesis
      by (simp add: updateStatus_def lookup_def emit_def modify_def getSession_def)
  qed
qed

text \<open>
  Claim C3 at the exit handler. \<open>updateStatus\<close> and \<open>checkHealth\<close> notify only when the
  status changes, but the exit and error handlers assign \<open>Offline\<close> and notify without
  looking at the current status: a session that an error event has already taken
  offline gets a second \<open>StatusChange\<close> to \<open>Offline\<close> when its process exits, although
  its status does not change.
\<close>
theorem exit_after_error_notifies_again:
  "map_option status (lookup errored ''a'') = Some Offline \<and>
   map_option status (lookup (on_exit 0 (Some 1) errored) ''a'') = Some Offline \<and>
   events (on_exit 0 (Some 1) errored) =
     events errored @ [Exit ''a'' (Some 1), StatusChange ''a'' Offline]"
  by (simp add: errored_eq eval_defs) (simp add: session_a_def)

end
